theory Spec2Isabelle
  imports Main "HOL-Library.Word"
begin

section \<open>The AutoAgent web client: data\<close>

text \<open>
  The client is the React component \<^verbatim>\<open>App\<close> of \<^verbatim>\<open>frontend/src/App.jsx\<close>. Its state is the
  set of \<^verbatim>\<open>useState\<close> cells; its operations are the event handlers, which are
  \<^verbatim>\<open>async\<close> functions that suspend at each \<^verbatim>\<open>await\<close> of an HTTP call. A handler is
  modelled as the part that runs when the event fires and one continuation for every
  \<^verbatim>\<open>await\<close>, run when the call settles.
\<close>

text \<open>
  A JavaScript string is a sequence of 16-bit code units. The literals of the component
  are ASCII; \<open>js\<close> turns one into its code units.
\<close>

type_synonym code_unit = "16 word"
type_synonym js_string = "code_unit list"

definition js :: "string \<Rightarrow> js_string" where
  "js s = map (\<lambda>c. of_nat (of_char c)) s"

record message =
  role :: js_string
  content :: js_string

text \<open>\<^verbatim>\<open>parseInt\<close> of the port field gives an integer or \<^verbatim>\<open>NaN\<close>.\<close>

datatype number = Num int | NaN

record config =
  container_name :: js_string
  port :: number
  test_pull_name :: js_string
  git_clone :: bool
  local_env :: bool
  model :: js_string

text \<open>
  The bodies of the backend's answers. \<^verbatim>\<open>GET /api/state\<close> answers
  \<^verbatim>\<open>{initialized, messages, available_agents, agent_name}\<close>; the handler guards
  \<^verbatim>\<open>messages\<close> and \<^verbatim>\<open>available_agents\<close> with \<^verbatim>\<open>|| []\<close>, so both may be missing
  (\<open>None\<close>). \<^verbatim>\<open>POST /api/chat\<close> answers \<^verbatim>\<open>{response, agent_name, messages}\<close>, "where
  messages is the updated full list" (comment in \<^verbatim>\<open>handleSend\<close>), stored with no guard.
\<close>

record state_data =
  st_initialized :: bool
  st_messages :: "message list option"
  st_available_agents :: "js_string list option"
  st_agent_name :: "js_string option"

record chat_data =
  chat_response :: js_string
  chat_agent_name :: "js_string option"
  chat_messages :: "message list"

record upload_data =
  uploaded_files :: "js_string list"

text \<open>
  A rejected call: \<^verbatim>\<open>err.response?.data?.detail\<close> (missing when the transport failed) and
  \<^verbatim>\<open>err.message\<close>.
\<close>

record http_error =
  err_detail :: "js_string option"
  err_message :: js_string

datatype reply =
    StateReply state_data
  | InitReply
  | ChatReply chat_data
  | UploadReply upload_data
  | Failure http_error

text \<open>
  A file of the file input is represented by its name; the multipart body is the list of
  \<^verbatim>\<open>FormData\<close> entries.
\<close>

type_synonym file_name = js_string
type_synonym form_data = "(js_string \<times> file_name) list"

text \<open>
  \<^verbatim>\<open>checkState\<close> has three callers: the mount effect, the "Refresh state" button and
  \<^verbatim>\<open>handleInit\<close>, which awaits it. The caller is kept with the request, since it decides
  what runs when the call settles.
\<close>

datatype origin = OnMount | OnRefresh | AfterInit

datatype request =
    GetState origin
  | PostInit config
  | PostChat js_string
  | PostUpload form_data

text \<open>
  The \<^verbatim>\<open>useState\<close> cells of \<^verbatim>\<open>App\<close>, followed by the environment: the HTTP calls in flight
  (\<open>pending\<close>, oldest first), every call issued so far (\<open>issued\<close>), the texts shown by
  \<^verbatim>\<open>alert\<close>, the lines written by \<^verbatim>\<open>console.error\<close>, the number of clipboard writes in
  flight and, as a history variable, the message lists the backend delivered that were
  stored (\<open>returned\<close>).
\<close>

record app =
  initialized :: bool
  config :: config
  loading :: bool
  messages :: "message list"
  input :: js_string
  availableAgents :: "js_string list"
  currentAgent :: "js_string option"
  uploading :: bool
  statusMessage :: js_string
  errorMessage :: js_string
  pending :: "request list"
  issued :: "request list"
  alerts :: "js_string list"
  console :: "js_string list"
  copying :: nat
  returned :: "message list list"

text \<open>The initial values passed to \<^verbatim>\<open>useState\<close>, with nothing in flight.\<close>

definition default_config :: config where
  "default_config =
     \<lparr>container_name = js ''auto_agent'', port = Num 12347,
      test_pull_name = js ''autoagent_mirror'', git_clone = True, local_env = False,
      model = js ''gpt-4o-2024-08-06''\<rparr>"

definition initial :: app where
  "initial =
     \<lparr>initialized = False, config = default_config, loading = False, messages = [],
      input = [], availableAgents = [], currentAgent = None, uploading = False,
      statusMessage = [], errorMessage = [], pending = [], issued = [], alerts = [],
      console = [], copying = 0, returned = []\<rparr>"

section \<open>Helpers of the JavaScript runtime\<close>

text \<open>
  \<^verbatim>\<open>String.prototype.trim\<close> removes white space and line terminators from both ends
  (ECMAScript, TrimString). White space is TAB, VT, FF, U+FEFF and the space separators of
  Unicode: SPACE, U+00A0, U+1680, U+2000 to U+200A, U+202F, U+205F, U+3000. The line
  terminators are LF, CR, U+2028 and U+2029. All of them are single code units.
\<close>

definition is_space :: "code_unit \<Rightarrow> bool" where
  "is_space c =
     (c \<in> {0x0009, 0x000A, 0x000B, 0x000C, 0x000D, 0x0020, 0x00A0, 0x1680,
            0x2000, 0x2001, 0x2002, 0x2003, 0x2004, 0x2005, 0x2006, 0x2007, 0x2008,
            0x2009, 0x200A, 0x2028, 0x2029, 0x202F, 0x205F, 0x3000, 0xFEFF})"

definition trim :: "js_string \<Rightarrow> js_string" where
  "trim s = rev (dropWhile is_space (rev (dropWhile is_space s)))"

text \<open>\<^verbatim>\<open>xs || []\<close>: an array is truthy, also when empty; \<^verbatim>\<open>undefined\<close> and \<^verbatim>\<open>null\<close> are not.\<close>

definition or_empty :: "'a list option \<Rightarrow> 'a list" where
  "or_empty v = (case v of Some xs \<Rightarrow> xs | None \<Rightarrow> [])"

text \<open>
  \<^verbatim>\<open>err.response?.data?.detail || err.message\<close>: the detail when it is there and not the
  empty string.
\<close>

definition failure_text :: "http_error \<Rightarrow> js_string" where
  "failure_text e =
     (case err_detail e of
        Some d \<Rightarrow> if d \<noteq> [] then d else err_message e
      | None \<Rightarrow> err_message e)"

text \<open>\<^verbatim>\<open>Array.prototype.join\<close>.\<close>

fun join :: "js_string \<Rightarrow> js_string list \<Rightarrow> js_string" where
  "join sep [] = []"
| "join sep [x] = x"
| "join sep (x # y # ys) = x @ sep @ join sep (y # ys)"

text \<open>A length in a template literal: its decimal digits.\<close>

definition digit :: "nat \<Rightarrow> code_unit" where
  "digit d = of_nat (48 + d)"

fun decimal :: "nat \<Rightarrow> js_string" where
  "decimal n = (if n < 10 then [digit n] else decimal (n div 10) @ [digit (n mod 10)])"

declare decimal.simps [simp del]

text \<open>Issuing an HTTP call, and \<^verbatim>\<open>alert\<close>.\<close>

definition http :: "request \<Rightarrow> app \<Rightarrow> app" where
  "http r s = s\<lparr>pending := pending s @ [r], issued := issued s @ [r]\<rparr>"

definition alert :: "js_string \<Rightarrow> app \<Rightarrow> app" where
  "alert txt s = s\<lparr>alerts := alerts s @ [txt]\<rparr>"

text \<open>Facts about \<open>js\<close>: it is injective and commutes with concatenation.\<close>

lemma js_Nil [simp]: "js [] = []"
  by (simp add: js_def)

lemma js_Nil_iff [simp]: "js s = [] \<longleftrightarrow> s = []"
  by (simp add: js_def)

lemma Nil_js_iff [simp]: "[] = js s \<longleftrightarrow> s = []"
  by (simp add: js_def)

lemma js_append: "js (a @ b) = js a @ js b"
  by (simp add: js_def)

lemma of_char_bound: "(of_char c :: nat) < 256"
  by (metis of_char_mod_256 mod_less_divisor zero_less_numeral)

lemma code_unit_of_char_eq_iff:
  "(of_nat (of_char c) :: code_unit) = of_nat (of_char d) \<longleftrightarrow> c = d"
proof
  assume a: "(of_nat (of_char c) :: code_unit) = of_nat (of_char d)"
  have c: "(of_char c :: nat) < 2 ^ 16"
    by (rule less_trans [OF of_char_bound]) simp
  have d: "(of_char d :: nat) < 2 ^ 16"
    by (rule less_trans [OF of_char_bound]) simp
  from a have "take_bit 16 (of_char c :: nat) = take_bit 16 (of_char d :: nat)"
    by (simp add: word_of_nat_eq_iff)
  moreover have "take_bit 16 (of_char c :: nat) = of_char c"
    by (rule take_bit_nat_eq_self) (rule c)
  moreover have "take_bit 16 (of_char d :: nat) = of_char d"
    by (rule take_bit_nat_eq_self) (rule d)
  ultimately have "(of_char c :: nat) = of_char d" by simp
  then show "c = d" by simp
qed simp

lemma js_eq_iff [simp]: "js a = js b \<longleftrightarrow> a = b"
proof (induction a arbitrary: b)
  case Nil
  show ?case by (cases b) (simp_all add: js_def)
next
  case (Cons x xs)
  show ?case
  proof (cases b)
    case Nil
    then show ?thesis by (simp add: js_def)
  next
    case (Cons y ys)
    with Cons.IH [of ys] show ?thesis by (simp add: js_def code_unit_of_char_eq_iff)
  qed
qed

section \<open>The handlers\<close>

subsection \<open>checkState\<close>

text \<open>
  \<^verbatim>\<open>
  const checkState = async () => {
    try {
      const res = await axios.get(`${API_BASE}/state`);
      if (res.data.initialized) {
        setInitialized(true);
        setMessages(res.data.messages || []);
        setAvailableAgents(res.data.available_agents || []);
        setCurrentAgent(res.data.agent_name);
      }
    } catch (err) {
      console.error("Failed to check state", err);
      setErrorMessage('Could not refresh the session state.');
    }
  };
  \<close>
\<close>

definition checkState :: "origin \<Rightarrow> app \<Rightarrow> app" where
  "checkState caller s = http (GetState caller) s"

definition checkState_settled :: "reply \<Rightarrow> app \<Rightarrow> app" where
  "checkState_settled r s =
     (case r of
        StateReply d \<Rightarrow>
          if st_initialized d then
            s\<lparr>initialized := True,
              messages := or_empty (st_messages d),
              availableAgents := or_empty (st_available_agents d),
              currentAgent := st_agent_name d,
              returned := (case st_messages d of
                             Some ms \<Rightarrow> returned s @ [ms] | None \<Rightarrow> returned s)\<rparr>
          else s
      | Failure e \<Rightarrow>
          s\<lparr>console := console s @ [js ''Failed to check state''],
            errorMessage := js ''Could not refresh the session state.''\<rparr>
      | _ \<Rightarrow> s)"

subsection \<open>handleInit\<close>

text \<open>
  \<^verbatim>\<open>
  const handleInit = async (e) => {
    e.preventDefault();
    setLoading(true);
    try {
      await axios.post(`${API_BASE}/init`, config);
      await checkState();
      setStatusMessage('Session initialized successfully.');
    } catch (err) {
      alert('Initialization failed: ' + (err.response?.data?.detail || err.message));
      setErrorMessage('Initialization failed. Please verify your settings.');
    }
    setLoading(false);
  };
  \<close>
  \<^verbatim>\<open>checkState\<close> catches its own failure, so the second \<^verbatim>\<open>await\<close> never throws.
\<close>

definition handleInit :: "app \<Rightarrow> app" where
  "handleInit s = http (PostInit (config s)) (s\<lparr>loading := True\<rparr>)"

definition handleInit_posted :: "reply \<Rightarrow> app \<Rightarrow> app" where
  "handleInit_posted r s =
     (case r of
        Failure e \<Rightarrow>
          (alert (js ''Initialization failed: '' @ failure_text e) s)
            \<lparr>errorMessage := js ''Initialization failed. Please verify your settings.'',
             loading := False\<rparr>
      | _ \<Rightarrow> checkState AfterInit s)"

definition handleInit_checked :: "reply \<Rightarrow> app \<Rightarrow> app" where
  "handleInit_checked r s =
     (checkState_settled r s)
       \<lparr>statusMessage := js ''Session initialized successfully.'', loading := False\<rparr>"

subsection \<open>handleSend\<close>

text \<open>
  \<^verbatim>\<open>
  const handleSend = async (e) => {
    e.preventDefault();
    if (!input.trim()) return;

    const userMsg = { role: 'user', content: input };
    setMessages(prev => [...prev, userMsg]);
    setInput('');
    setLoading(true);

    try {
      const res = await axios.post(`${API_BASE}/chat`, { message: userMsg.content });
      setMessages(res.data.messages);
      setCurrentAgent(res.data.agent_name);
      setStatusMessage('Response received.');
    } catch (err) {
      alert('Message failed: ' + (err.response?.data?.detail || err.message));
      setErrorMessage('Message failed. Please try again.');
    }
    setLoading(false);
  };
  \<close>
\<close>

definition handleSend :: "app \<Rightarrow> app" where
  "handleSend s =
     (if trim (input s) = [] then s
      else
        let userMsg = \<lparr>role = js ''user'', content = input s\<rparr>
        in http (PostChat (content userMsg))
             (s\<lparr>messages := messages s @ [userMsg], input := [], loading := True\<rparr>))"

definition handleSend_settled :: "reply \<Rightarrow> app \<Rightarrow> app" where
  "handleSend_settled r s =
     (case r of
        ChatReply d \<Rightarrow>
          s\<lparr>messages := chat_messages d,
            currentAgent := chat_agent_name d,
            statusMessage := js ''Response received.'',
            loading := False,
            returned := returned s @ [chat_messages d]\<rparr>
      | Failure e \<Rightarrow>
          (alert (js ''Message failed: '' @ failure_text e) s)
            \<lparr>errorMessage := js ''Message failed. Please try again.'', loading := False\<rparr>
      | _ \<Rightarrow> s)"

subsection \<open>handleUpload\<close>

text \<open>
  \<^verbatim>\<open>
  const handleUpload = async (e) => {
    const files = e.target.files;
    if (!files || files.length === 0) return;

    const formData = new FormData();
    for (let i = 0; i < files.length; i++) {
      formData.append('files', files[i]);
    }

    setUploading(true);
    try {
      const res = await axios.post(`${API_BASE}/upload`, formData, { ... });
      alert(`Uploaded: ${res.data.uploaded_files.join(', ')}`);
      setStatusMessage(`Uploaded ${res.data.uploaded_files.length} file(s).`);
    } catch (err) {
      alert('Upload failed: ' + (err.response?.data?.detail || err.message));
      setErrorMessage('Upload failed. Please retry.');
    }
    setUploading(false);
  };
  \<close>
  The argument is \<^verbatim>\<open>e.target.files\<close>, \<open>None\<close> when the event has no file list.
\<close>

fun append_files :: "file_name list \<Rightarrow> form_data \<Rightarrow> form_data" where
  "append_files [] formData = formData"
| "append_files (f # fs) formData = append_files fs (formData @ [(js ''files'', f)])"

definition handleUpload :: "file_name list option \<Rightarrow> app \<Rightarrow> app" where
  "handleUpload files s =
     (case files of
        None \<Rightarrow> s
      | Some fs \<Rightarrow>
          if length fs = 0 then s
          else http (PostUpload (append_files fs [])) (s\<lparr>uploading := True\<rparr>))"

definition handleUpload_settled :: "reply \<Rightarrow> app \<Rightarrow> app" where
  "handleUpload_settled r s =
     (case r of
        UploadReply d \<Rightarrow>
          (alert (js ''Uploaded: '' @ join (js '', '') (uploaded_files d)) s)
            \<lparr>statusMessage :=
               js ''Uploaded '' @ decimal (length (uploaded_files d)) @ js '' file(s).'',
             uploading := False\<rparr>
      | Failure e \<Rightarrow>
          (alert (js ''Upload failed: '' @ failure_text e) s)
            \<lparr>errorMessage := js ''Upload failed. Please retry.'', uploading := False\<rparr>
      | _ \<Rightarrow> s)"

subsection \<open>handleCopyMessage, renderStatus, formatRoleLabel\<close>

text \<open>
  \<^verbatim>\<open>handleCopyMessage\<close> awaits the clipboard, not the backend; the argument of the
  continuation says whether the write succeeded.
\<close>

definition handleCopyMessage :: "app \<Rightarrow> app" where
  "handleCopyMessage s = s\<lparr>copying := Suc (copying s)\<rparr>"

definition handleCopyMessage_settled :: "bool \<Rightarrow> app \<Rightarrow> app" where
  "handleCopyMessage_settled ok s =
     (if ok then s\<lparr>statusMessage := js ''Message copied to clipboard.''\<rparr>
      else s\<lparr>console := console s @ [js ''Copy failed''], errorMessage := js ''Unable to copy.''\<rparr>)"

datatype banner = ErrorBanner js_string | InfoBanner js_string | MutedBanner js_string

definition renderStatus :: "app \<Rightarrow> banner option" where
  "renderStatus s =
     (if errorMessage s \<noteq> [] then Some (ErrorBanner (errorMessage s))
      else if statusMessage s \<noteq> [] then Some (InfoBanner (statusMessage s))
      else if loading s \<or> uploading s then Some (MutedBanner (js ''Working on your request...''))
      else None)"

text \<open>
  \<^verbatim>\<open>
  const formatRoleLabel = (role) => {
    if (role === 'assistant') return 'Assistant';
    if (role === 'system') return 'System';
    if (role === 'tool') return 'Tool';
    return 'You';
  };
  \<close>
\<close>

definition formatRoleLabel :: "js_string \<Rightarrow> js_string" where
  "formatRoleLabel r =
     (if r = js ''assistant'' then js ''Assistant''
      else if r = js ''system'' then js ''System''
      else if r = js ''tool'' then js ''Tool''
      else js ''You'')"

text \<open>
  The second copy of the component in the repository, which has no status banners, renders
  \<^verbatim>\<open>{msg.role === 'user' ? 'You' : msg.role}\<close> in place of \<^verbatim>\<open>formatRoleLabel\<close>; its handlers
  are the ones above without \<^verbatim>\<open>setStatusMessage\<close> and \<^verbatim>\<open>setErrorMessage\<close>.
\<close>

definition inline_role_label :: "js_string \<Rightarrow> js_string" where
  "inline_role_label r = (if r = js ''user'' then js ''You'' else r)"

section \<open>Events\<close>

text \<open>
  An event is a user action on a control that is rendered and enabled, or the settling of
  a call in flight. Each event runs to completion before the next one: the component is
  single-threaded and re-renders between events, so a handler reads the state the
  previous event left. The setup form is rendered while \<open>initialized\<close> is false, the
  chat view afterwards. In the chat view the message input, "Send" and "Refresh state" carry
  \<^verbatim>\<open>disabled={loading}\<close>, the file input \<^verbatim>\<open>disabled={uploading}\<close>, "Clear view" nothing;
  in the setup form the submit button carries \<^verbatim>\<open>disabled={loading}\<close>, and a form whose
  submit button is disabled is not submitted by the Enter key either. An event on a control
  that is not rendered or is disabled does not happen: the state stays as it is.
\<close>

datatype config_edit =
    EditContainerName js_string
  | EditPort number
  | EditTestPullName js_string
  | EditModel js_string
  | EditGitClone bool
  | EditLocalEnv bool

datatype event =
    EditConfig config_edit
  | SubmitConfig
  | ChangeInput js_string
  | SubmitMessage
  | SelectFiles "file_name list option"
  | ClickRefresh
  | ClickClear
  | ClickCopy nat
  | CopySettled bool
  | Settle nat reply

text \<open>\<^verbatim>\<open>setConfig({...config, field: value})\<close>, one case for each field of the form.\<close>

fun setConfig :: "config_edit \<Rightarrow> app \<Rightarrow> app" where
  "setConfig (EditContainerName v) s = s\<lparr>config := (config s)\<lparr>container_name := v\<rparr>\<rparr>"
| "setConfig (EditPort v) s = s\<lparr>config := (config s)\<lparr>port := v\<rparr>\<rparr>"
| "setConfig (EditTestPullName v) s = s\<lparr>config := (config s)\<lparr>test_pull_name := v\<rparr>\<rparr>"
| "setConfig (EditModel v) s = s\<lparr>config := (config s)\<lparr>model := v\<rparr>\<rparr>"
| "setConfig (EditGitClone v) s = s\<lparr>config := (config s)\<lparr>git_clone := v\<rparr>\<rparr>"
| "setConfig (EditLocalEnv v) s = s\<lparr>config := (config s)\<lparr>local_env := v\<rparr>\<rparr>"

text \<open>Which answers a call can get: a failure, or the body of its endpoint.\<close>

fun answers :: "request \<Rightarrow> reply \<Rightarrow> bool" where
  "answers q (Failure e) = True"
| "answers (GetState c) (StateReply d) = True"
| "answers (PostInit c) InitReply = True"
| "answers (PostChat m) (ChatReply d) = True"
| "answers (PostUpload f) (UploadReply d) = True"
| "answers q r = False"

text \<open>The code after the \<^verbatim>\<open>await\<close> of each call.\<close>

fun resume :: "request \<Rightarrow> reply \<Rightarrow> app \<Rightarrow> app" where
  "resume (GetState AfterInit) r s = handleInit_checked r s"
| "resume (GetState c) r s = checkState_settled r s"
| "resume (PostInit c) r s = handleInit_posted r s"
| "resume (PostChat m) r s = handleSend_settled r s"
| "resume (PostUpload f) r s = handleUpload_settled r s"

text \<open>
  The call at position \<open>i\<close> of the calls in flight settles with \<open>r\<close>: it leaves the list
  and its continuation runs. Calls settle in any order.
\<close>

definition remove_at :: "nat \<Rightarrow> 'a list \<Rightarrow> 'a list" where
  "remove_at i xs = take i xs @ drop (Suc i) xs"

definition settle :: "nat \<Rightarrow> reply \<Rightarrow> app \<Rightarrow> app" where
  "settle i r s =
     (if i < length (pending s) \<and> answers (pending s ! i) r
      then resume (pending s ! i) r (s\<lparr>pending := remove_at i (pending s)\<rparr>)
      else s)"

fun step :: "event \<Rightarrow> app \<Rightarrow> app" where
  "step (EditConfig c) s = (if \<not> initialized s then setConfig c s else s)"
| "step SubmitConfig s = (if \<not> initialized s \<and> \<not> loading s then handleInit s else s)"
| "step (ChangeInput v) s = (if initialized s \<and> \<not> loading s then s\<lparr>input := v\<rparr> else s)"
| "step SubmitMessage s = (if initialized s \<and> \<not> loading s then handleSend s else s)"
| "step (SelectFiles fs) s =
     (if initialized s \<and> \<not> uploading s then handleUpload fs s else s)"
| "step ClickRefresh s =
     (if initialized s \<and> \<not> loading s then checkState OnRefresh s else s)"
| "step ClickClear s = (if initialized s then s\<lparr>messages := []\<rparr> else s)"
| "step (ClickCopy i) s =
     (if initialized s \<and> i < length (messages s) then handleCopyMessage s else s)"
| "step (CopySettled ok) s =
     (if 0 < copying s
      then handleCopyMessage_settled ok (s\<lparr>copying := copying s - 1\<rparr>) else s)"
| "step (Settle i r) s = settle i r s"

declare step.simps [simp del]

fun run :: "event list \<Rightarrow> app \<Rightarrow> app" where
  "run [] s = s"
| "run (e # es) s = run es (step e s)"

text \<open>The mount effect calls \<^verbatim>\<open>checkState\<close> once.\<close>

definition mounted :: app where
  "mounted = checkState OnMount initial"

text \<open>The state \<open>Ready\<close> of the specification: chat view, no busy flag.\<close>

definition ready :: "app \<Rightarrow> bool" where
  "ready s = (initialized s \<and> \<not> loading s \<and> \<not> uploading s)"

section \<open>Sample inputs\<close>

text \<open>The chat view with "hello" typed, and the backend's answer to it.\<close>

definition greeting :: app where
  "greeting = initial\<lparr>initialized := True, input := js ''hello''\<rparr>"

definition hello_reply :: chat_data where
  "hello_reply =
     \<lparr>chat_response = js ''hi'', chat_agent_name = Some (js ''coder''),
      chat_messages = [\<lparr>role = js ''user'', content = js ''hello''\<rparr>,
                       \<lparr>role = js ''assistant'', content = js ''hi''\<rparr>]\<rparr>"

definition network_error :: http_error where
  "network_error = \<lparr>err_detail = None, err_message = js ''Network Error''\<rparr>"

definition fresh_backend :: state_data where
  "fresh_backend =
     \<lparr>st_initialized = False, st_messages = None, st_available_agents = None,
      st_agent_name = None\<rparr>"

definition bare_session :: state_data where
  "bare_session =
     \<lparr>st_initialized = True, st_messages = None, st_available_agents = None,
      st_agent_name = Some (js ''coder'')\<rparr>"

definition empty_session :: state_data where
  "empty_session =
     \<lparr>st_initialized = True, st_messages = Some [],
      st_available_agents = Some [js ''coder'', js ''browser''], st_agent_name = Some (js ''coder'')\<rparr>"

text \<open>
  The session is found on mount; "hello" is typed and sent; a file is selected while the
  chat call is in flight.
\<close>

definition overlap_trace :: "event list" where
  "overlap_trace =
     [Settle 0 (StateReply empty_session), ChangeInput (js ''hello''), SubmitMessage,
      SelectFiles (Some [js ''notes.txt''])]"


text \<open>
  The session is found on mount; "hello" is sent; "Clear view" is clicked while the chat call
  is in flight; the chat call fails.
\<close>

definition clear_then_failure_trace :: "event list" where
  "clear_then_failure_trace =
     [Settle 0 (StateReply empty_session), ChangeInput (js ''hello''), SubmitMessage,
      ClickClear, Settle 0 (Failure network_error)]"

text \<open>
  The setup form is submitted while the state call of the mount is still in flight; the
  session starts; "hello" is sent; the answer to the mount's call arrives while the chat call
  is in flight; the chat call fails. This trace uses no control that the second copy lacks.
\<close>

definition late_state_answer_trace :: "event list" where
  "late_state_answer_trace =
     [SubmitConfig, Settle 1 InitReply, Settle 1 (StateReply empty_session),
      ChangeInput (js ''hello''), SubmitMessage, Settle 0 (StateReply empty_session),
      Settle 0 (Failure network_error)]"

text \<open>An input made of white space that is not ASCII, with a line separator.\<close>

definition unicode_blank :: js_string where
  "unicode_blank = [0x00A0, 0x3000, 0x2028, 0xFEFF, 0x0020]"

section \<open>Predicates on states\<close>

text \<open>
  The events that store a new message list: "Clear view", a state answer that reports an
  initialized session, and a chat answer.
\<close>

fun replaces_list :: "event \<Rightarrow> bool" where
  "replaces_list ClickClear = True"
| "replaces_list (Settle i (StateReply d)) = st_initialized d"
| "replaces_list (Settle i (ChatReply d)) = True"
| "replaces_list e = False"

text \<open>
  The calls whose handler keeps \<open>loading\<close> set while they are in flight: the init call, the
  state call \<^verbatim>\<open>handleInit\<close> awaits after it, and the chat call. The upload call keeps
  \<open>uploading\<close> set. The state calls of the mount and of "Refresh state" set no flag.
\<close>

fun holds_loading :: "request \<Rightarrow> bool" where
  "holds_loading (GetState c) = (c = AfterInit)"
| "holds_loading (PostInit c) = True"
| "holds_loading (PostChat m) = True"
| "holds_loading (PostUpload f) = False"

fun is_upload :: "request \<Rightarrow> bool" where
  "is_upload (PostUpload f) = True"
| "is_upload q = False"

definition count_where :: "('a \<Rightarrow> bool) \<Rightarrow> 'a list \<Rightarrow> nat" where
  "count_where P xs = length (filter P xs)"

text \<open>At most one backend call of any kind is in flight.\<close>

definition single_flight :: "app \<Rightarrow> bool" where
  "single_flight s = (length (pending s) \<le> 1)"

text \<open>Each busy flag is set exactly when one call of its kind is in flight, and none otherwise.\<close>

definition flags_agree :: "app \<Rightarrow> bool" where
  "flags_agree s =
     (count_where holds_loading (pending s) = (if loading s then 1 else 0)
    \<and> count_where is_upload (pending s) = (if uploading s then 1 else 0))"

text \<open>A state call of the "Refresh state" button is in flight only in the chat view.\<close>

definition refresh_needs_session :: "app \<Rightarrow> bool" where
  "refresh_needs_session s = (GetState OnRefresh \<in> set (pending s) \<longrightarrow> initialized s)"




section \<open>What the handlers do, as equations\<close>

lemma handleSend_nonblank:
  "trim (input s) \<noteq> [] \<Longrightarrow>
   handleSend s =
     s\<lparr>messages := messages s @ [\<lparr>role = js ''user'', content = input s\<rparr>], input := [],
       loading := True, pending := pending s @ [PostChat (input s)],
       issued := issued s @ [PostChat (input s)]\<rparr>"
  by (simp add: handleSend_def http_def)

lemma settle_chat_ok:
  "i < length (pending t) \<Longrightarrow> pending t ! i = PostChat m \<Longrightarrow>
   settle i (ChatReply d) t =
     t\<lparr>pending := remove_at i (pending t),
       messages := chat_messages d, currentAgent := chat_agent_name d,
       statusMessage := js ''Response received.'', loading := False,
       returned := returned t @ [chat_messages d]\<rparr>"
  by (simp add: settle_def handleSend_settled_def)

lemma settle_chat_failed:
  "i < length (pending t) \<Longrightarrow> pending t ! i = PostChat m \<Longrightarrow>
   settle i (Failure e) t =
     t\<lparr>pending := remove_at i (pending t),
       alerts := alerts t @ [js ''Message failed: '' @ failure_text e],
       errorMessage := js ''Message failed. Please try again.'', loading := False\<rparr>"
  by (simp add: settle_def handleSend_settled_def alert_def)

lemma greeting_ready: "ready greeting"
  by (simp add: ready_def greeting_def initial_def)

lemma greeting_nonblank: "trim (input greeting) \<noteq> []"
  by (simp add: greeting_def trim_def is_space_def js_def)

lemma greeting_fields:
  "pending greeting = []" "messages greeting = []" "input greeting = js ''hello''"
  "alerts greeting = []" "initialized greeting" "\<not> loading greeting" "\<not> uploading greeting"
  by (simp_all add: greeting_def initial_def)

section \<open>Sending a message\<close>

text \<open>
  C1. When the chat view is ready and the input is not blank after trimming, submitting
  appends exactly one entry \<^verbatim>\<open>{role: 'user', content: input}\<close> to the displayed list and puts
  one chat call in flight. When that call succeeds, the displayed list is exactly the list
  the backend returned; this holds whenever a chat call succeeds, whatever happened to the
  list in between, so nothing of the optimistic entry is left.
\<close>

theorem send_appends_once_then_backend_list:
  assumes "ready s" and "trim (input s) \<noteq> []"
  shows "messages (step SubmitMessage s)
           = messages s @ [\<lparr>role = js ''user'', content = input s\<rparr>]
     \<and> pending (step SubmitMessage s) = pending s @ [PostChat (input s)]
     \<and> messages (step (Settle (length (pending s)) (ChatReply d)) (step SubmitMessage s))
           = chat_messages d
     \<and> (\<forall>t i m. i < length (pending t) \<and> pending t ! i = PostChat m \<longrightarrow>
            messages (step (Settle i (ChatReply d)) t) = chat_messages d)"
proof -
  have sub: "step SubmitMessage s = handleSend s"
    using assms(1) unfolding ready_def by (simp add: step.simps)
  note hs = handleSend_nonblank [OF assms(2)]
  have a: "messages (step SubmitMessage s)
             = messages s @ [\<lparr>role = js ''user'', content = input s\<rparr>]"
    unfolding sub by (simp add: hs)
  have b: "pending (step SubmitMessage s) = pending s @ [PostChat (input s)]"
    unfolding sub by (simp add: hs)
  have later: "messages (step (Settle i (ChatReply d)) t) = chat_messages d"
    if "i < length (pending t)" "pending t ! i = PostChat m" for t i m
    using that by (simp add: step.simps settle_chat_ok)
  have c: "messages (step (Settle (length (pending s)) (ChatReply d)) (step SubmitMessage s))
             = chat_messages d"
    by (rule later [where m = "input s"]) (simp_all only: b, simp_all)
  from a b c later show ?thesis by blast
qed

theorem send_appends_once_then_backend_list_witness:
  "ready greeting \<and> trim (input greeting) \<noteq> []
   \<and> messages (step SubmitMessage greeting) = [\<lparr>role = js ''user'', content = js ''hello''\<rparr>]
   \<and> 0 < length (pending (step SubmitMessage greeting))
   \<and> pending (step SubmitMessage greeting) ! 0 = PostChat (js ''hello'')
   \<and> messages (step (Settle 0 (ChatReply hello_reply)) (step SubmitMessage greeting))
       = [\<lparr>role = js ''user'', content = js ''hello''\<rparr>, \<lparr>role = js ''assistant'', content = js ''hi''\<rparr>]"
  using send_appends_once_then_backend_list
          [OF greeting_ready greeting_nonblank, of hello_reply]
        greeting_ready greeting_nonblank
  by (simp add: greeting_fields hello_reply_def)

text \<open>
  C5. A submission whose input is empty after trimming returns at the guard: the handler,
  and the submit event in every state, leave the whole state as it is, the calls in flight
  and the calls issued included. Trimming removes every white space and line terminator of
  JavaScript, so an input of no-break spaces is such an input.
\<close>

theorem blank_submission_is_noop:
  "trim (input s) = [] \<Longrightarrow>
   handleSend s = s \<and> step SubmitMessage s = s \<and> issued (step SubmitMessage s) = issued s"
  by (simp add: step.simps handleSend_def)

theorem blank_submission_is_noop_witness:
  "trim (input (greeting\<lparr>input := unicode_blank\<rparr>)) = []
   \<and> step SubmitMessage (greeting\<lparr>input := unicode_blank\<rparr>)
       = greeting\<lparr>input := unicode_blank\<rparr>"
  using blank_submission_is_noop [of "greeting\<lparr>input := unicode_blank\<rparr>"]
  by (simp add: trim_def is_space_def unicode_blank_def)

section \<open>Selecting files\<close>

text \<open>
  C6. A file-selection event with a missing file list or with zero files returns at the
  guard of \<^verbatim>\<open>handleUpload\<close>: no call is issued and the whole state, the \<open>uploading\<close> flag
  included, stays as it is.
\<close>

theorem empty_selection_is_noop:
  "files = None \<or> files = Some [] \<Longrightarrow>
   handleUpload files s = s \<and> step (SelectFiles files) s = s
   \<and> uploading (step (SelectFiles files) s) = uploading s
   \<and> issued (step (SelectFiles files) s) = issued s"
  by (auto simp: step.simps handleUpload_def)

theorem empty_selection_is_noop_witness:
  "(Some [] = (None :: file_name list option) \<or> Some [] = Some ([] :: file_name list))
   \<and> step (SelectFiles (Some [])) greeting = greeting"
  using empty_selection_is_noop [of "Some []" greeting] by simp

section \<open>Start of the client\<close>

text \<open>
  C8. The configuration starts as \<^verbatim>\<open>container_name\<close> "auto_agent", \<^verbatim>\<open>port\<close> 12347,
  \<^verbatim>\<open>test_pull_name\<close> "autoagent_mirror", \<^verbatim>\<open>git_clone\<close> true, \<^verbatim>\<open>local_env\<close> false, \<^verbatim>\<open>model\<close>
  "gpt-4o-2024-08-06". The mount puts one state call in flight; when it answers
  \<^verbatim>\<open>initialized: false\<close>, nothing of the store changes: the client stays in the setup view
  with an empty message list and the default configuration.
\<close>

theorem defaults_and_uninitialized_start:
  "config initial =
     \<lparr>container_name = js ''auto_agent'', port = Num 12347,
      test_pull_name = js ''autoagent_mirror'', git_clone = True, local_env = False,
      model = js ''gpt-4o-2024-08-06''\<rparr>
   \<and> \<not> initialized initial \<and> messages initial = []
   \<and> pending mounted = [GetState OnMount]
   \<and> (\<not> st_initialized d \<longrightarrow>
        step (Settle 0 (StateReply d)) mounted = initial\<lparr>issued := [GetState OnMount]\<rparr>
      \<and> \<not> initialized (step (Settle 0 (StateReply d)) mounted)
      \<and> messages (step (Settle 0 (StateReply d)) mounted) = []
      \<and> config (step (Settle 0 (StateReply d)) mounted) = config initial)"
  by (simp add: initial_def default_config_def mounted_def checkState_def http_def
      step.simps settle_def remove_at_def checkState_settled_def)

theorem defaults_and_uninitialized_start_witness:
  "\<not> st_initialized fresh_backend
   \<and> \<not> initialized (step (Settle 0 (StateReply fresh_backend)) mounted)
   \<and> messages (step (Settle 0 (StateReply fresh_backend)) mounted) = []"
  using defaults_and_uninitialized_start [of fresh_backend] by (simp add: fresh_backend_def)

section \<open>Role labels\<close>

text \<open>
  C9, as claimed: a message with an unrecognised role is shown with a default label. The
  claim names both copies of the component. The second copy shows the role string itself:
  two unrecognised roles get two different labels, and the empty role gets the empty label.
\<close>

theorem inline_label_is_the_role_itself:
  "inline_role_label (js ''developer'') = js ''developer''
   \<and> inline_role_label (js ''critic'') = js ''critic''
   \<and> inline_role_label (js ''developer'') \<noteq> inline_role_label (js ''critic'')
   \<and> inline_role_label [] = []"
  by (simp add: inline_role_label_def)

text \<open>
  C9, amended: no label computation fails. \<^verbatim>\<open>formatRoleLabel\<close> gives "You" for user,
  "Assistant", "System" and "Tool" for the three other known roles, and "You" again, as the
  default, for every other role. The inline label of the second copy is "You" for user and
  the role string itself for every other role, known or not.
\<close>

theorem role_labels_of_both_copies:
  "formatRoleLabel (js ''user'') = js ''You''
   \<and> formatRoleLabel (js ''assistant'') = js ''Assistant''
   \<and> formatRoleLabel (js ''system'') = js ''System''
   \<and> formatRoleLabel (js ''tool'') = js ''Tool''
   \<and> (r \<notin> {js ''user'', js ''assistant'', js ''system'', js ''tool''}
        \<longrightarrow> formatRoleLabel r = js ''You'')
   \<and> inline_role_label (js ''user'') = js ''You''
   \<and> (r \<noteq> js ''user'' \<longrightarrow> inline_role_label r = r)"
  by (simp add: formatRoleLabel_def inline_role_label_def)

theorem role_labels_of_both_copies_witness:
  "js ''developer'' \<notin> {js ''user'', js ''assistant'', js ''system'', js ''tool''}
   \<and> formatRoleLabel (js ''developer'') = js ''You''
   \<and> js ''developer'' \<noteq> js ''user''
   \<and> inline_role_label (js ''developer'') = js ''developer''"
  using role_labels_of_both_copies [of "js ''developer''"] by simp

section \<open>Refreshing the state\<close>

text \<open>
  C10. When a state call answers \<^verbatim>\<open>initialized: true\<close>, the stored message list is the
  answer's \<^verbatim>\<open>messages\<close> and the stored agent list its \<^verbatim>\<open>available_agents\<close>, each replaced by
  the empty list when the field is missing or null. This holds for the three callers of
  \<^verbatim>\<open>checkState\<close>.
\<close>

theorem state_refresh_defaults_missing_lists:
  "st_initialized d \<Longrightarrow>
     messages (resume (GetState c) (StateReply d) s)
       = (case st_messages d of Some ms \<Rightarrow> ms | None \<Rightarrow> [])
   \<and> availableAgents (resume (GetState c) (StateReply d) s)
       = (case st_available_agents d of Some as \<Rightarrow> as | None \<Rightarrow> [])
   \<and> (i < length (pending s) \<and> pending s ! i = GetState c \<longrightarrow>
        messages (step (Settle i (StateReply d)) s)
          = (case st_messages d of Some ms \<Rightarrow> ms | None \<Rightarrow> [])
      \<and> availableAgents (step (Settle i (StateReply d)) s)
          = (case st_available_agents d of Some as \<Rightarrow> as | None \<Rightarrow> []))"
  by (cases c)
     (simp_all add: step.simps settle_def checkState_settled_def handleInit_checked_def
        or_empty_def)

theorem state_refresh_defaults_missing_lists_witness:
  "st_initialized bare_session
   \<and> 0 < length (pending mounted) \<and> pending mounted ! 0 = GetState OnMount
   \<and> messages (step (Settle 0 (StateReply bare_session)) mounted) = []
   \<and> availableAgents (step (Settle 0 (StateReply bare_session)) mounted) = []"
  using state_refresh_defaults_missing_lists [of bare_session OnMount mounted 0]
  by (simp add: bare_session_def mounted_def checkState_def http_def initial_def)

section \<open>Running a trace\<close>

lemma run_append: "run (es @ es') s = run es' (run es s)"
  by (induction es arbitrary: s) simp_all

lemmas run_defs = step.simps settle_def remove_at_def checkState_settled_def checkState_def
  handleInit_def handleInit_posted_def handleInit_checked_def handleSend_def
  handleSend_settled_def handleUpload_def handleUpload_settled_def http_def alert_def
  mounted_def initial_def or_empty_def trim_def is_space_def js_def Let_def failure_text_def

section \<open>Events that keep the displayed list\<close>

lemma settle_keeps_messages:
  assumes "\<not> replaces_list (Settle i r)"
  shows "messages (settle i r s) = messages s"
proof (cases "i < length (pending s) \<and> answers (pending s ! i) r")
  case False
  then show ?thesis by (auto simp: settle_def)
next
  case True
  with assms show ?thesis
    by (cases "(pending s ! i, r, s)" rule: resume.cases; cases r)
       (auto simp: settle_def checkState_settled_def handleInit_checked_def
          handleInit_posted_def checkState_def http_def alert_def handleSend_settled_def
          handleUpload_settled_def)
qed

lemma step_keeps_or_appends:
  assumes "\<not> replaces_list e"
  shows "messages (step e s) = messages s
       \<or> messages (step e s) = messages s @ [\<lparr>role = js ''user'', content = input s\<rparr>]"
proof (cases e)
  case (EditConfig c)
  then show ?thesis by (cases c) (simp_all add: step.simps)
next
  case SubmitMessage
  then show ?thesis by (simp add: step.simps handleSend_def http_def Let_def)
next
  case ClickClear
  with assms show ?thesis by simp
next
  case (Settle i r)
  with assms show ?thesis by (simp add: step.simps settle_keeps_messages)
qed (simp_all add: step.simps handleInit_def handleUpload_def checkState_def http_def
       handleCopyMessage_def handleCopyMessage_settled_def split: option.splits)

lemma entry_kept_by_step:
  "\<not> replaces_list e \<Longrightarrow> m \<in> set (messages s) \<Longrightarrow> m \<in> set (messages (step e s))"
  using step_keeps_or_appends [of e s] by auto

lemma entry_kept_by_run:
  "list_all (\<lambda>x. \<not> replaces_list x) es \<Longrightarrow> m \<in> set (messages s)
   \<Longrightarrow> m \<in> set (messages (run es s))"
  by (induction es arbitrary: s) (simp_all add: entry_kept_by_step)

section \<open>A failed send\<close>

text \<open>
  C2, as claimed: after every failed chat call the optimistic entry is still displayed.
  "Clear view" is never disabled: clicked while the chat call is in flight it empties the
  list, and the failure brings nothing back. After the failure the client is ready, the
  alert was shown, and the displayed list is empty.
\<close>

theorem cleared_entry_is_absent_after_failure:
  "messages (run clear_then_failure_trace mounted) = []
   \<and> ready (run clear_then_failure_trace mounted)
   \<and> issued (run clear_then_failure_trace mounted) = [GetState OnMount, PostChat (js ''hello'')]
   \<and> alerts (run clear_then_failure_trace mounted) = [js ''Message failed: Network Error'']"
  by (simp add: clear_then_failure_trace_def empty_session_def network_error_def ready_def
      run_defs)

text \<open>The same happens when a state answer replaces the list while the chat call is in flight.\<close>

lemma late_state_answer_removes_entry:
  "messages (run late_state_answer_trace mounted) = []
   \<and> ready (run late_state_answer_trace mounted)
   \<and> alerts (run late_state_answer_trace mounted) = [js ''Message failed: Network Error'']"
  by (simp add: late_state_answer_trace_def empty_session_def network_error_def ready_def
      run_defs)

text \<open>
  C2, amended: when a chat call fails, the continuation clears \<open>loading\<close>, shows an alert and
  sets the error banner, and changes neither the displayed list nor any other cell of the
  store: nothing is rolled back. Submitted from the ready state and failed at once, the
  client is ready again and shows the old list with the optimistic entry at its end. With
  other events in between, the entry is still displayed after the failure as long as none
  of them stored a new list ("Clear view", a state answer of an initialized session, a chat
  answer); otherwise the list is the one stored when the call fails.
\<close>

theorem failed_send_rolls_nothing_back:
  "(i < length (pending t) \<and> pending t ! i = PostChat m \<longrightarrow>
      (let t' = step (Settle i (Failure e)) t in
         \<not> loading t' \<and> messages t' = messages t
       \<and> errorMessage t' = js ''Message failed. Please try again.''
       \<and> renderStatus t' = Some (ErrorBanner (js ''Message failed. Please try again.''))
       \<and> alerts t' = alerts t @ [js ''Message failed: '' @ failure_text e]
       \<and> initialized t' = initialized t \<and> config t' = config t \<and> input t' = input t
       \<and> availableAgents t' = availableAgents t \<and> currentAgent t' = currentAgent t
       \<and> uploading t' = uploading t \<and> statusMessage t' = statusMessage t))
   \<and> (ready s \<and> trim (input s) \<noteq> [] \<longrightarrow>
      (let s' = step (Settle (length (pending s)) (Failure e)) (step SubmitMessage s) in
         ready s' \<and> messages s' = messages s @ [\<lparr>role = js ''user'', content = input s\<rparr>]
       \<and> errorMessage s' \<noteq> []))
   \<and> (ready s \<and> trim (input s) \<noteq> [] \<and> list_all (\<lambda>x. \<not> replaces_list x) es
       \<and> j < length (pending (run es (step SubmitMessage s)))
       \<and> pending (run es (step SubmitMessage s)) ! j = PostChat m' \<longrightarrow>
      (let s' = step (Settle j (Failure e)) (run es (step SubmitMessage s)) in
         \<not> loading s' \<and> \<lparr>role = js ''user'', content = input s\<rparr> \<in> set (messages s')))"
proof (intro conjI impI)
  assume "i < length (pending t) \<and> pending t ! i = PostChat m"
  then have "step (Settle i (Failure e)) t =
     t\<lparr>pending := remove_at i (pending t),
       alerts := alerts t @ [js ''Message failed: '' @ failure_text e],
       errorMessage := js ''Message failed. Please try again.'', loading := False\<rparr>"
    by (simp add: step.simps settle_chat_failed)
  then show "let t' = step (Settle i (Failure e)) t in
         \<not> loading t' \<and> messages t' = messages t
       \<and> errorMessage t' = js ''Message failed. Please try again.''
       \<and> renderStatus t' = Some (ErrorBanner (js ''Message failed. Please try again.''))
       \<and> alerts t' = alerts t @ [js ''Message failed: '' @ failure_text e]
       \<and> initialized t' = initialized t \<and> config t' = config t \<and> input t' = input t
       \<and> availableAgents t' = availableAgents t \<and> currentAgent t' = currentAgent t
       \<and> uploading t' = uploading t \<and> statusMessage t' = statusMessage t"
    by (simp add: renderStatus_def)
next
  assume rs: "ready s \<and> trim (input s) \<noteq> []"
  then have sub: "step SubmitMessage s = handleSend s"
    unfolding ready_def by (simp add: step.simps)
  from rs have hs: "handleSend s =
     s\<lparr>messages := messages s @ [\<lparr>role = js ''user'', content = input s\<rparr>], input := [],
       loading := True, pending := pending s @ [PostChat (input s)],
       issued := issued s @ [PostChat (input s)]\<rparr>"
    by (simp add: handleSend_nonblank)
  have "settle (length (pending s)) (Failure e) (handleSend s) =
     (handleSend s)\<lparr>pending := remove_at (length (pending s)) (pending (handleSend s)),
       alerts := alerts (handleSend s) @ [js ''Message failed: '' @ failure_text e],
       errorMessage := js ''Message failed. Please try again.'', loading := False\<rparr>"
    by (rule settle_chat_failed [where m = "input s"]) (simp_all add: hs)
  then show "let s' = step (Settle (length (pending s)) (Failure e)) (step SubmitMessage s) in
         ready s' \<and> messages s' = messages s @ [\<lparr>role = js ''user'', content = input s\<rparr>]
       \<and> errorMessage s' \<noteq> []"
    using rs unfolding sub step.simps(10) by (simp add: hs ready_def)
next
  let ?u = "\<lparr>role = js ''user'', content = input s\<rparr>"
  let ?t = "run es (step SubmitMessage s)"
  assume a: "ready s \<and> trim (input s) \<noteq> [] \<and> list_all (\<lambda>x. \<not> replaces_list x) es
       \<and> j < length (pending ?t) \<and> pending ?t ! j = PostChat m'"
  then have sub: "step SubmitMessage s = handleSend s"
    unfolding ready_def by (simp add: step.simps)
  from a have "?u \<in> set (messages (step SubmitMessage s))"
    unfolding sub by (simp add: handleSend_nonblank)
  with a have there: "?u \<in> set (messages ?t)"
    by (simp add: entry_kept_by_run)
  from a have "step (Settle j (Failure e)) ?t =
     ?t\<lparr>pending := remove_at j (pending ?t),
       alerts := alerts ?t @ [js ''Message failed: '' @ failure_text e],
       errorMessage := js ''Message failed. Please try again.'', loading := False\<rparr>"
    by (simp add: step.simps settle_chat_failed)
  with there show "let s' = step (Settle j (Failure e)) ?t in
         \<not> loading s' \<and> ?u \<in> set (messages s')"
    by simp
qed

theorem failed_send_rolls_nothing_back_witness:
  "ready greeting \<and> trim (input greeting) \<noteq> []
   \<and> 0 < length (pending (step SubmitMessage greeting))
   \<and> pending (step SubmitMessage greeting) ! 0 = PostChat (js ''hello'')
   \<and> ready (step (Settle 0 (Failure network_error)) (step SubmitMessage greeting))
   \<and> messages (step (Settle 0 (Failure network_error)) (step SubmitMessage greeting))
       = [\<lparr>role = js ''user'', content = js ''hello''\<rparr>]
   \<and> alerts (step (Settle 0 (Failure network_error)) (step SubmitMessage greeting))
       = [js ''Message failed: Network Error'']
   \<and> list_all (\<lambda>x. \<not> replaces_list x) [SelectFiles (Some [js ''notes.txt''])]
   \<and> 0 < length (pending (run [SelectFiles (Some [js ''notes.txt''])]
                              (step SubmitMessage greeting)))
   \<and> pending (run [SelectFiles (Some [js ''notes.txt''])] (step SubmitMessage greeting)) ! 0
       = PostChat (js ''hello'')
   \<and> \<lparr>role = js ''user'', content = js ''hello''\<rparr>
       \<in> set (messages (step (Settle 0 (Failure network_error))
                  (run [SelectFiles (Some [js ''notes.txt''])] (step SubmitMessage greeting))))"
proof -
  let ?es = "[SelectFiles (Some [js ''notes.txt''])]"
  have sub: "step SubmitMessage greeting = handleSend greeting"
    using greeting_ready unfolding ready_def by (simp add: step.simps)
  note hs = handleSend_nonblank [OF greeting_nonblank]
  have p: "pending (step SubmitMessage greeting) = [PostChat (js ''hello'')]"
    unfolding sub by (simp add: hs greeting_fields)
  have al: "alerts (step SubmitMessage greeting) = []"
    unfolding sub by (simp add: hs greeting_fields)
  have ms: "messages (step SubmitMessage greeting)
              = [\<lparr>role = js ''user'', content = js ''hello''\<rparr>]"
    unfolding sub by (simp add: hs greeting_fields)
  have ft: "failure_text network_error = js ''Network Error''"
    by (simp add: failure_text_def network_error_def)
  have q: "pending (step (SelectFiles (Some [js ''notes.txt''])) (step SubmitMessage greeting))
             = [PostChat (js ''hello''), PostUpload [(js ''files'', js ''notes.txt'')]]"
    unfolding sub
    by (simp add: hs greeting_fields step.simps handleUpload_def http_def)
  from failed_send_rolls_nothing_back
         [of 0 "step SubmitMessage greeting" "js ''hello''" network_error greeting ?es 0
             "js ''hello''"]
       greeting_ready greeting_nonblank
  show ?thesis
    by (simp add: p al ms ft q greeting_fields Let_def js_append [symmetric])
qed

section \<open>Calls in flight and the busy flags\<close>

lemma count_where_Nil [simp]: "count_where P [] = 0"
  by (simp add: count_where_def)

lemma count_where_snoc [simp]:
  "count_where P (xs @ [x]) = count_where P xs + (if P x then 1 else 0)"
  by (simp add: count_where_def)

lemma count_where_Cons [simp]:
  "count_where P (x # xs) = (if P x then 1 else 0) + count_where P xs"
  by (simp add: count_where_def)

lemma count_where_pos:
  "i < length xs \<Longrightarrow> P (xs ! i) \<Longrightarrow> 0 < count_where P xs"
  by (auto simp: count_where_def filter_empty_conv)

lemma count_where_remove_at:
  assumes "i < length xs"
  shows "count_where P (remove_at i xs) = count_where P xs - (if P (xs ! i) then 1 else 0)"
proof -
  have "length (filter P xs) = length (filter P (take i xs @ xs ! i # drop (Suc i) xs))"
    using assms by (simp only: id_take_nth_drop [symmetric])
  then show ?thesis by (simp add: remove_at_def count_where_def)
qed

lemma flags_agree_settle:
  assumes "flags_agree s"
  shows "flags_agree (settle i r s)"
proof (cases "i < length (pending s) \<and> answers (pending s ! i) r")
  case False
  with assms show ?thesis by (auto simp: settle_def split: if_splits)
next
  case True
  then have i: "i < length (pending s)" and a: "answers (pending s ! i) r" by simp_all
  note lf = count_where_remove_at [OF i]
  note pos = count_where_pos [OF i, of holds_loading] count_where_pos [OF i, of is_upload]
  show ?thesis
  proof (cases "pending s ! i")
    case (GetState c)
    with assms i a pos show ?thesis
      by (cases c; cases r)
         (auto simp: settle_def flags_agree_def lf checkState_settled_def
            handleInit_checked_def split: if_splits)
  next
    case (PostInit c)
    with assms i a pos show ?thesis
      by (cases r)
         (auto simp: settle_def flags_agree_def lf handleInit_posted_def checkState_def
            http_def alert_def split: if_splits)
  next
    case (PostChat m)
    with assms i a pos show ?thesis
      by (cases r)
         (auto simp: settle_def flags_agree_def lf handleSend_settled_def alert_def
            split: if_splits)
  next
    case (PostUpload f)
    with assms i a pos show ?thesis
      by (cases r)
         (auto simp: settle_def flags_agree_def lf handleUpload_settled_def alert_def
            split: if_splits)
  qed
qed

lemma flags_agree_step:
  assumes "flags_agree s"
  shows "flags_agree (step e s)"
proof (cases e)
  case (EditConfig c)
  with assms show ?thesis by (cases c) (auto simp: step.simps flags_agree_def split: if_splits)
next
  case SubmitConfig
  with assms show ?thesis
    by (auto simp: step.simps flags_agree_def handleInit_def http_def split: if_splits)
next
  case (ChangeInput v)
  with assms show ?thesis by (auto simp: step.simps flags_agree_def split: if_splits)
next
  case SubmitMessage
  with assms show ?thesis
    by (auto simp: step.simps flags_agree_def handleSend_def http_def Let_def split: if_splits)
next
  case (SelectFiles fs)
  with assms show ?thesis
    by (auto simp: step.simps flags_agree_def handleUpload_def http_def split: option.splits)
next
  case ClickRefresh
  with assms show ?thesis
    by (auto simp: step.simps flags_agree_def checkState_def http_def split: if_splits)
next
  case ClickClear
  with assms show ?thesis by (auto simp: step.simps flags_agree_def split: if_splits)
next
  case (ClickCopy i)
  with assms show ?thesis by (auto simp: step.simps flags_agree_def handleCopyMessage_def split: if_splits)
next
  case (CopySettled ok)
  with assms show ?thesis
    by (auto simp: step.simps flags_agree_def handleCopyMessage_settled_def split: if_splits)
next
  case (Settle i r)
  with assms show ?thesis by (auto simp: step.simps flags_agree_settle split: if_splits)
qed

lemma flags_agree_run: "flags_agree s \<Longrightarrow> flags_agree (run es s)"
  by (induction es arbitrary: s) (simp_all add: flags_agree_step)

lemma flags_agree_mounted: "flags_agree mounted"
  by (simp add: flags_agree_def mounted_def checkState_def http_def initial_def)

text \<open>
  C4, as claimed: at most one backend call is in flight in every reachable state. The
  handlers have no guard of their own, and the controls are disabled flag by flag: the file
  input by \<open>uploading\<close> only, "Send" by \<open>loading\<close> only. So a file selected while a chat call is
  in flight starts an upload beside it.
\<close>

theorem upload_overlaps_send:
  "pending (run overlap_trace mounted) = [PostChat (js ''hello''), PostUpload [(js ''files'', js ''notes.txt'')]]
   \<and> \<not> single_flight (run overlap_trace mounted)"
  by (simp add: overlap_trace_def empty_session_def single_flight_def run_defs)

text \<open>
  C4, amended: in every reachable state at most one call that holds \<open>loading\<close> is in flight
  (a chat call, or an init call with the state call that follows it), and one is in flight
  exactly when \<open>loading\<close> is set; at most one upload is in flight, and one is in flight
  exactly when \<open>uploading\<close> is set.
\<close>

theorem busy_flags_bound_calls_in_flight:
  "flags_agree (run es mounted)
   \<and> count_where holds_loading (pending (run es mounted)) \<le> 1
   \<and> count_where is_upload (pending (run es mounted)) \<le> 1"
proof -
  have "flags_agree (run es mounted)"
    by (rule flags_agree_run [OF flags_agree_mounted])
  then show ?thesis by (simp add: flags_agree_def split: if_splits)
qed

section \<open>The initialized flag\<close>

lemma set_remove_at: "set (remove_at i xs) \<subseteq> set xs"
  unfolding remove_at_def using set_take_subset [of i xs] set_drop_subset [of "Suc i" xs]
  by auto

lemma initialized_settle: "initialized s \<Longrightarrow> initialized (settle i r s)"
proof (cases "i < length (pending s) \<and> answers (pending s ! i) r")
  case False
  assume "initialized s"
  with False show ?thesis by (auto simp: settle_def)
next
  case True
  assume "initialized s"
  with True show ?thesis
    by (cases "(pending s ! i, r, s)" rule: resume.cases; cases r)
       (auto simp: settle_def checkState_settled_def handleInit_checked_def
          handleInit_posted_def checkState_def http_def alert_def handleSend_settled_def
          handleUpload_settled_def)
qed

lemma initialized_step: "initialized s \<Longrightarrow> initialized (step e s)"
proof (cases e)
  case (EditConfig c)
  assume "initialized s"
  with EditConfig show ?thesis by (simp add: step.simps)
next
  case (Settle i r)
  assume "initialized s"
  with Settle show ?thesis by (simp add: step.simps initialized_settle)
qed (auto simp: step.simps handleSend_def http_def Let_def handleUpload_def checkState_def
       handleCopyMessage_def handleCopyMessage_settled_def split: option.splits)

lemma initialized_run: "initialized s \<Longrightarrow> initialized (run es s)"
  by (induction es arbitrary: s) (simp_all add: initialized_step)

lemma refresh_needs_session_settle:
  assumes "refresh_needs_session s"
  shows "refresh_needs_session (settle i r s)"
proof (cases "i < length (pending s) \<and> answers (pending s ! i) r")
  case False
  with assms show ?thesis by (auto simp: settle_def)
next
  case True
  have sub: "GetState OnRefresh \<in> set (remove_at i (pending s)) \<Longrightarrow> initialized s"
    using assms set_remove_at [of i "pending s"] by (auto simp: refresh_needs_session_def)
  from True sub show ?thesis
    by (cases "(pending s ! i, r, s)" rule: resume.cases; cases r)
       (auto simp: refresh_needs_session_def settle_def checkState_settled_def
          handleInit_checked_def handleInit_posted_def checkState_def http_def alert_def
          handleSend_settled_def handleUpload_settled_def)
qed

lemma refresh_needs_session_step:
  assumes "refresh_needs_session s"
  shows "refresh_needs_session (step e s)"
proof (cases e)
  case (EditConfig c)
  with assms show ?thesis
    by (cases c) (auto simp: step.simps refresh_needs_session_def)
next
  case (Settle i r)
  with assms show ?thesis by (simp add: step.simps refresh_needs_session_settle)
qed (use assms in \<open>auto simp: refresh_needs_session_def step.simps handleInit_def
       handleSend_def http_def Let_def handleUpload_def checkState_def
       handleCopyMessage_def handleCopyMessage_settled_def split: option.splits\<close>)

lemma refresh_needs_session_run:
  "refresh_needs_session s \<Longrightarrow> refresh_needs_session (run es s)"
  by (induction es arbitrary: s) (simp_all add: refresh_needs_session_step)

lemma refresh_needs_session_mounted: "refresh_needs_session mounted"
  by (simp add: refresh_needs_session_def mounted_def checkState_def http_def initial_def)

lemma initialized_set_by_settle:
  assumes "\<not> initialized s" and "initialized (settle i r s)"
  shows "\<exists>d c. r = StateReply d \<and> st_initialized d \<and> i < length (pending s)
           \<and> pending s ! i = GetState c"
proof (cases "i < length (pending s) \<and> answers (pending s ! i) r")
  case False
  with assms show ?thesis by (auto simp: settle_def)
next
  case True
  with assms show ?thesis
    by (cases "(pending s ! i, r, s)" rule: resume.cases; cases r)
       (auto simp: settle_def checkState_settled_def handleInit_checked_def
          handleInit_posted_def checkState_def http_def alert_def handleSend_settled_def
          handleUpload_settled_def split: if_splits)
qed

lemma initialized_set_by_step:
  assumes "\<not> initialized s" and "initialized (step e s)"
  shows "\<exists>i d c. e = Settle i (StateReply d) \<and> st_initialized d \<and> i < length (pending s)
           \<and> pending s ! i = GetState c"
proof (cases e)
  case (EditConfig c)
  with assms show ?thesis by (cases c) (auto simp: step.simps)
next
  case (Settle i r)
  with assms initialized_set_by_settle [of s i r] show ?thesis
    by (auto simp: step.simps)
qed (use assms in \<open>auto simp: step.simps handleInit_def http_def
       handleCopyMessage_settled_def split: if_splits\<close>)

text \<open>
  The state call tagged \<open>AfterInit\<close> comes into flight only when an init call succeeds.
\<close>

lemma after_init_call_follows_init:
  assumes "GetState AfterInit \<notin> set (pending s)"
    and "GetState AfterInit \<in> set (pending (step e s))"
  shows "\<exists>i c. e = Settle i InitReply \<and> i < length (pending s) \<and> pending s ! i = PostInit c"
proof (cases e)
  case (EditConfig c)
  with assms show ?thesis by (cases c) (auto simp: step.simps split: if_splits)
next
  case (Settle i r)
  have sub: "GetState AfterInit \<notin> set (remove_at i (pending s))"
    using assms(1) set_remove_at [of i "pending s"] by auto
  show ?thesis
  proof (cases "i < length (pending s) \<and> answers (pending s ! i) r")
    case False
    with assms Settle show ?thesis by (auto simp: step.simps settle_def)
  next
    case True
    with assms(2) sub Settle show ?thesis
      by (cases "(pending s ! i, r, s)" rule: resume.cases; cases r)
         (auto simp: step.simps settle_def checkState_settled_def handleInit_checked_def
            handleInit_posted_def checkState_def http_def alert_def handleSend_settled_def
            handleUpload_settled_def split: if_splits)
  qed
qed (use assms in \<open>auto simp: step.simps handleInit_def handleSend_def http_def Let_def
       handleUpload_def checkState_def handleCopyMessage_def handleCopyMessage_settled_def
       split: if_splits option.splits\<close>)

text \<open>
  C7. \<open>initialized\<close> starts false. No event sets it back to false, so along a run it changes
  at most once. In a reachable state it becomes true only when a state call answers
  \<^verbatim>\<open>initialized: true\<close>, and that call is the one of the mount or the one \<^verbatim>\<open>handleInit\<close>
  issues after a successful init: a call of "Refresh state" is issued in the chat view only.
\<close>

theorem initialized_is_monotonic:
  "\<not> initialized initial \<and> \<not> initialized mounted
   \<and> (initialized s \<longrightarrow> initialized (step e s))
   \<and> (initialized (run es mounted) \<longrightarrow> initialized (run (es @ es') mounted))
   \<and> (\<not> initialized (run es mounted) \<and> initialized (step e (run es mounted)) \<longrightarrow>
        (\<exists>i d c. e = Settle i (StateReply d) \<and> st_initialized d
           \<and> i < length (pending (run es mounted))
           \<and> pending (run es mounted) ! i = GetState c \<and> c \<noteq> OnRefresh))"
proof (intro conjI impI)
  show "\<not> initialized initial" by (simp add: initial_def)
  show "\<not> initialized mounted" by (simp add: mounted_def checkState_def http_def initial_def)
  show "initialized (step e s)" if "initialized s" using that by (rule initialized_step)
  show "initialized (run (es @ es') mounted)" if "initialized (run es mounted)"
    using that by (simp add: run_append initialized_run)
next
  let ?s = "run es mounted"
  assume a: "\<not> initialized ?s \<and> initialized (step e ?s)"
  then obtain i d c where e: "e = Settle i (StateReply d)" "st_initialized d"
      "i < length (pending ?s)" "pending ?s ! i = GetState c"
    using initialized_set_by_step [of ?s e] by blast
  have "refresh_needs_session ?s"
    by (rule refresh_needs_session_run [OF refresh_needs_session_mounted])
  with a have "GetState OnRefresh \<notin> set (pending ?s)"
    by (auto simp: refresh_needs_session_def)
  with e(3,4) have "c \<noteq> OnRefresh"
    by (metis nth_mem)
  with e show "\<exists>i d c. e = Settle i (StateReply d) \<and> st_initialized d
           \<and> i < length (pending ?s) \<and> pending ?s ! i = GetState c \<and> c \<noteq> OnRefresh"
    by blast
qed

theorem initialized_is_monotonic_witness:
  "initialized greeting \<and> initialized (step ClickClear greeting)
   \<and> initialized (run [Settle 0 (StateReply empty_session)] mounted)
   \<and> initialized (run ([Settle 0 (StateReply empty_session)] @ [ClickClear, SubmitMessage]) mounted)
   \<and> \<not> initialized (run [] mounted)
   \<and> initialized (step (Settle 0 (StateReply empty_session)) (run [] mounted))"
  using initialized_is_monotonic [of greeting ClickClear "[Settle 0 (StateReply empty_session)]"
               "[ClickClear, SubmitMessage]"]
        initialized_is_monotonic [of greeting "Settle 0 (StateReply empty_session)" "[]" "[]"]
  by (simp add: greeting_def empty_session_def run_defs)

section \<open>The displayed message list\<close>















end
